theory Spec2Isabelle
  imports Main "HOL-Library.AList"
begin

section \<open>Errors raised by the modelled code\<close>

text \<open>
  Exceptions are values.  \<open>TypeError\<close>, \<open>ValueError\<close>, \<open>KeyError\<close>, \<open>SyntaxError\<close>,
  \<open>AttributeError\<close> and \<open>NameError\<close> are the
  Python exceptions raised by \<^verbatim>\<open>soulstruct/base/maps/msb/utils.py\<close> and by the standard
  library calls it makes.  \<open>SizeMismatchError\<close>, \<open>NotFoundError\<close> and
  \<open>AmbiguousReferenceError\<close> are the names the specification gives to the errors of
  helpers whose source is not part of \<^verbatim>\<open>src/\<close>.
\<close>

datatype py_error =
    TypeError
  | ValueError
  | KeyError
  | SyntaxError
  | AttributeError
  | NameError
  | SizeMismatchError
  | NotFoundError
  | AmbiguousReferenceError

section \<open>Bit-group conversion helpers (\<^verbatim>\<open>soulstruct.utilities.conversion\<close>)\<close>

text \<open>
  Modelled from the spec: \<^verbatim>\<open>int_group_to_bit_set\<close> is imported from
  \<^verbatim>\<open>soulstruct.utilities.conversion\<close>, which is not under \<^verbatim>\<open>src/\<close>.  The specification
  says: bit \<open>i\<close> of word index \<open>w\<close> is enabled iff the bit is set, it maps to global bit
  \<open>32 * w + i\<close>, and the number of words must equal the expected size exactly, else the
  call fails with a size-mismatch error.  The expected size is the keyword argument
  \<^verbatim>\<open>assert_size\<close> of the call in \<^verbatim>\<open>GroupBitSet.__init__\<close>.
\<close>

definition int_group_to_bit_set :: "int list \<Rightarrow> nat \<Rightarrow> py_error + int set" where
  "int_group_to_bit_set int_group assert_size =
     (if length int_group \<noteq> assert_size then Inl SizeMismatchError
      else Inr (set (concat (map
             (\<lambda>w. map (\<lambda>i. int (32 * w + i)) (filter (\<lambda>i. bit (int_group ! w) i) [0..<32]))
             [0..<length int_group]))))"

text \<open>
  Modelled from the spec: \<^verbatim>\<open>bit_set_to_int_group\<close> is imported from
  \<^verbatim>\<open>soulstruct.utilities.conversion\<close>, which is not under \<^verbatim>\<open>src/\<close>.  The specification
  says: the inverse of the word decoding, always \<open>group_size\<close> words long, word \<open>w\<close>
  holding bit \<open>i\<close> iff global bit \<open>32 * w + i\<close> is enabled.  The specification is silent
  on enabled flags outside \<open>[0, 32 * group_size)\<close>; here they set no bit.
\<close>

definition bit_set_to_int_group :: "int set \<Rightarrow> nat \<Rightarrow> int list" where
  "bit_set_to_int_group enabled_flags group_size =
     map (\<lambda>w. \<Sum>i\<leftarrow>[0..<32]. if int (32 * w + i) \<in> enabled_flags then 2 ^ i else 0)
       [0..<group_size]"

section \<open>\<^verbatim>\<open>GroupBitSet\<close>\<close>

text \<open>
  A \<^verbatim>\<open>GroupBitSet\<close> instance has one field, \<^verbatim>\<open>enabled_bits\<close>, which refers to a Python
  \<^verbatim>\<open>set\<close> object.  Set objects are mutable and can be shared between instances, so they
  live in an explicit store: a list of sets, an address being an index into it, and
  allocation appending a cell.  All store reads below are at addresses of existing
  objects (Python has no dangling references).
\<close>

type_synonym set_store = "int set list"

datatype gbs_class = GroupBitSet128 | GroupBitSet256

fun BIT_COUNT :: "gbs_class \<Rightarrow> int" where
  "BIT_COUNT GroupBitSet128 = 128"
| "BIT_COUNT GroupBitSet256 = 256"

record GroupBitSet =
  cls :: gbs_class
  enabled_bits :: nat

text \<open>
  The argument of the constructor, by the \<^verbatim>\<open>isinstance\<close> tests it goes through: another
  instance, a \<^verbatim>\<open>list\<close> of integers, a reference to a \<^verbatim>\<open>set\<close> of integers, or anything
  else.  The elements of the set are integers by type, so the \<^verbatim>\<open>isinstance(i, int)\<close>
  conjunct of the set branch is always true.
\<close>

datatype init_arg =
    FromInstance GroupBitSet
  | FromList "int list"
  | FromSet nat
  | FromOther

definition GroupBitSet_init ::
  "gbs_class \<Rightarrow> set_store \<Rightarrow> init_arg \<Rightarrow> py_error + (set_store \<times> GroupBitSet)" where
  "GroupBitSet_init c st arg =
     (case arg of
        FromInstance other \<Rightarrow>
          if cls other = c
          then Inr (st, \<lparr>cls = c, enabled_bits = enabled_bits other\<rparr>)
          else Inl TypeError
      | FromList uint_list \<Rightarrow>
          (case int_group_to_bit_set uint_list (length uint_list) of
             Inl e \<Rightarrow> Inl e
           | Inr bits \<Rightarrow> Inr (st @ [bits], \<lparr>cls = c, enabled_bits = length st\<rparr>))
      | FromSet r \<Rightarrow>
          if (\<forall>i \<in> st ! r. i < BIT_COUNT c)
          then Inr (st, \<lparr>cls = c, enabled_bits = r\<rparr>)
          else Inl TypeError
      | FromOther \<Rightarrow> Inl TypeError)"

definition to_sorted_bit_list :: "set_store \<Rightarrow> GroupBitSet \<Rightarrow> int list" where
  "to_sorted_bit_list st self = sorted_list_of_set (st ! enabled_bits self)"

definition to_uints :: "set_store \<Rightarrow> GroupBitSet \<Rightarrow> int list" where
  "to_uints st self =
     bit_set_to_int_group (st ! enabled_bits self) (nat (BIT_COUNT (cls self) div 32))"

definition GroupBitSet_add :: "set_store \<Rightarrow> GroupBitSet \<Rightarrow> int \<Rightarrow> py_error + set_store" where
  "GroupBitSet_add st self b =
     (if \<not> (0 \<le> b \<and> b \<le> BIT_COUNT (cls self)) then Inl ValueError
      else Inr (st[enabled_bits self := insert b (st ! enabled_bits self)]))"

definition GroupBitSet_remove :: "set_store \<Rightarrow> GroupBitSet \<Rightarrow> int \<Rightarrow> py_error + set_store" where
  "GroupBitSet_remove st self b =
     (if \<not> (0 \<le> b \<and> b \<le> BIT_COUNT (cls self)) then Inl ValueError
      else if b \<notin> st ! enabled_bits self then Inl KeyError
      else Inr (st[enabled_bits self := st ! enabled_bits self - {b}]))"

text \<open>
  The round trip of the specification, as one expression:
  \<^verbatim>\<open>cls(cls(S).to_uints()).to_sorted_bit_list()\<close> for a set object \<open>S\<close> at address \<open>r\<close>.
\<close>

definition words_round_trip :: "gbs_class \<Rightarrow> set_store \<Rightarrow> nat \<Rightarrow> py_error + int list" where
  "words_round_trip c st r =
     (case GroupBitSet_init c st (FromSet r) of
        Inl e \<Rightarrow> Inl e
      | Inr (st1, g) \<Rightarrow>
          (case GroupBitSet_init c st1 (FromList (to_uints st1 g)) of
             Inl e \<Rightarrow> Inl e
           | Inr (st2, g') \<Rightarrow> Inr (to_sorted_bit_list st2 g')))"

subsection \<open>Text form: \<^verbatim>\<open>__repr__\<close> and \<^verbatim>\<open>from_repr\<close>\<close>

text \<open>
  A Python \<^verbatim>\<open>str\<close> is a sequence of Unicode code points: a list of natural numbers.
  \<open>ascii_text\<close> turns an ASCII literal into one.
\<close>

type_synonym py_str = "nat list"

definition ascii_text :: "string \<Rightarrow> py_str" where
  "ascii_text s = map of_char s"

text \<open>
  Two things belong to the interpreter that runs the code and not to the code.  The
  class \<^verbatim>\<open>\d\<close> of \<^verbatim>\<open>re\<close>, on a \<^verbatim>\<open>str\<close> pattern, matches every Unicode decimal digit: the ten
  ASCII digits and the other characters of category Nd in the interpreter's Unicode
  tables; \<open>unicode_digit\<close> is that table, read for code points from 128 on.  The compiler
  refuses an integer literal with more digits than \<^verbatim>\<open>sys.get_int_max_str_digits()\<close>
  (which CPython lets be 0, for no limit, or a number from 640 on; its default is 4300
  where the limit exists); \<open>int_max_str_digits\<close> is that number.
\<close>

record interpreter =
  unicode_digit :: "nat \<Rightarrow> bool"
  int_max_str_digits :: nat

definition ascii_digit :: "nat \<Rightarrow> bool" where
  "ascii_digit ch \<longleftrightarrow> 48 \<le> ch \<and> ch \<le> 57"

definition re_digit :: "interpreter \<Rightarrow> nat \<Rightarrow> bool" where
  "re_digit I ch \<longleftrightarrow> ascii_digit ch \<or> (128 \<le> ch \<and> unicode_digit I ch)"

definition digit_char :: "nat \<Rightarrow> nat" where
  "digit_char d = 48 + d"

definition digit_val :: "nat \<Rightarrow> nat" where
  "digit_val ch = ch - 48"

text \<open>Python's \<^verbatim>\<open>str\<close> of an integer: decimal, no leading zero, a minus sign when negative.\<close>

function str_nat :: "nat \<Rightarrow> py_str" where
  "str_nat n = (if n < 10 then [digit_char n] else str_nat (n div 10) @ [digit_char (n mod 10)])"
  by pat_completeness auto
termination
  by (relation "measure (\<lambda>n. n)") auto

declare str_nat.simps [simp del]

definition str_int :: "int \<Rightarrow> py_str" where
  "str_int i = (if i < 0 then 45 # str_nat (nat (- i)) else str_nat (nat i))"

text \<open>Python's \<^verbatim>\<open>sep.join(parts)\<close>.\<close>

fun join :: "py_str \<Rightarrow> py_str list \<Rightarrow> py_str" where
  "join sep [] = []"
| "join sep [p] = p"
| "join sep (p # q # ps) = p @ sep @ join sep (q # ps)"

fun class_name :: "gbs_class \<Rightarrow> py_str" where
  "class_name GroupBitSet128 = ascii_text ''GroupBitSet128''"
| "class_name GroupBitSet256 = ascii_text ''GroupBitSet256''"

text \<open>
  \<^verbatim>\<open>__repr__\<close>: the class name, \<^verbatim>\<open>(\<close>, the sorted bits joined by a comma and a space
  (code points 44 and 32), \<^verbatim>\<open>)\<close> (code points 40 and 41).
\<close>

definition GroupBitSet_repr :: "set_store \<Rightarrow> GroupBitSet \<Rightarrow> py_str" where
  "GroupBitSet_repr st self =
     class_name (cls self) @
       40 # join [44, 32] (map str_int (sorted_list_of_set (st ! enabled_bits self))) @ [41]"

text \<open>
  \<^verbatim>\<open>_REPR_RE.match(repr_string)\<close> for the pattern \<^verbatim>\<open>^GroupBitSet128(\([\d, ]*\))$\<close> (and the
  same with 256): the class name, an opening parenthesis, the longest run of digits,
  commas and spaces, a closing parenthesis, and then the end of the string or one
  newline (code point 10) that ends the string (Python's \<^verbatim>\<open>$\<close>).  The result is group 1,
  the parenthesised part.  The run excludes the closing parenthesis, so the greedy scan
  never has to backtrack.
\<close>

definition repr_char :: "interpreter \<Rightarrow> nat \<Rightarrow> bool" where
  "repr_char I ch \<longleftrightarrow> re_digit I ch \<or> ch = 44 \<or> ch = 32"

fun strip_prefix :: "py_str \<Rightarrow> py_str \<Rightarrow> py_str option" where
  "strip_prefix [] s = Some s"
| "strip_prefix (p # ps) [] = None"
| "strip_prefix (p # ps) (ch # s) = (if p = ch then strip_prefix ps s else None)"

definition REPR_RE_match :: "interpreter \<Rightarrow> gbs_class \<Rightarrow> py_str \<Rightarrow> py_str option" where
  "REPR_RE_match I c repr_string =
     (case strip_prefix (class_name c) repr_string of
        None \<Rightarrow> None
      | Some rest \<Rightarrow>
          (case rest of
             [] \<Rightarrow> None
           | ch # t \<Rightarrow>
               if ch \<noteq> 40 then None
               else
                 let body = takeWhile (repr_char I) t; tail = dropWhile (repr_char I) t
                 in if tail = [41] \<or> tail = [41, 10]
                    then Some (40 # body @ [41])
                    else None))"

text \<open>
  \<^verbatim>\<open>ast.literal_eval\<close> on group 1, that is on a parenthesised string of digits, commas
  and spaces.  Python's tokenizer skips spaces, reads a comma as a comma and a maximal
  run of ASCII digits as a decimal integer literal; such a literal is a syntax error
  when it has a leading zero without being all zeros, or more digits than the
  interpreter's limit.  Any other character is a syntax error here: a digit outside
  ASCII is not a character a Python expression can contain outside a name, and the
  regular expression lets no other character through.  The parser accepts \<^verbatim>\<open>()\<close> as the
  empty tuple, one literal in parentheses as that integer, and literals separated by
  commas, with an optional trailing comma, as a tuple.  Everything else is a
  \<^verbatim>\<open>SyntaxError\<close>.
\<close>

datatype token = NUMBER int | COMMA

datatype literal = PyInt int | PyTuple "int list"

definition dec_value :: "py_str \<Rightarrow> nat" where
  "dec_value ds = foldl (\<lambda>a ch. 10 * a + digit_val ch) 0 ds"

definition number_value :: "interpreter \<Rightarrow> py_str \<Rightarrow> int option" where
  "number_value I ds =
     (if hd ds = 48 \<and> \<not> list_all (\<lambda>ch. ch = 48) ds then None
      else if 0 < int_max_str_digits I \<and> int_max_str_digits I < length ds then None
      else Some (int (dec_value ds)))"

function tokenize :: "interpreter \<Rightarrow> py_str \<Rightarrow> token list option" where
  "tokenize I [] = Some []"
| "tokenize I (ch # s) =
     (if ch = 32 then tokenize I s
      else if ch = 44 then map_option (\<lambda>ts. COMMA # ts) (tokenize I s)
      else if ascii_digit ch then
        (case number_value I (ch # takeWhile ascii_digit s) of
           None \<Rightarrow> None
         | Some n \<Rightarrow> map_option (\<lambda>ts. NUMBER n # ts) (tokenize I (dropWhile ascii_digit s)))
      else None)"
  by pat_completeness auto
termination
  by (relation "measure (\<lambda>(I, s). length s)")
     (auto simp: le_imp_less_Suc length_dropWhile_le)

declare tokenize.simps [simp del]

fun parse_elements :: "token list \<Rightarrow> int list option" where
  "parse_elements [] = Some []"
| "parse_elements [NUMBER n] = Some [n]"
| "parse_elements (NUMBER n # COMMA # ts) = map_option (\<lambda>ns. n # ns) (parse_elements ts)"
| "parse_elements ts = None"

fun parse_parenthesised :: "token list \<Rightarrow> literal option" where
  "parse_parenthesised [] = Some (PyTuple [])"
| "parse_parenthesised [NUMBER n] = Some (PyInt n)"
| "parse_parenthesised (NUMBER n # COMMA # ts) =
     map_option (\<lambda>ns. PyTuple (n # ns)) (parse_elements ts)"
| "parse_parenthesised ts = None"

definition literal_eval :: "interpreter \<Rightarrow> py_str \<Rightarrow> py_error + literal" where
  "literal_eval I s =
     (case s of
        [] \<Rightarrow> Inl SyntaxError
      | ch # t \<Rightarrow>
          if ch = 40 \<and> t \<noteq> [] \<and> last t = 41 then
            (case tokenize I (butlast t) of
               None \<Rightarrow> Inl SyntaxError
             | Some ts \<Rightarrow>
                 (case parse_parenthesised ts of
                    None \<Rightarrow> Inl SyntaxError
                  | Some v \<Rightarrow> Inr v))
          else Inl SyntaxError)"

text \<open>
  \<^verbatim>\<open>from_repr\<close>: an integer becomes a one-element tuple, \<^verbatim>\<open>set(bit_tuple)\<close> is a new set
  object, handed to the constructor.
\<close>

definition as_bit_tuple :: "literal \<Rightarrow> int list" where
  "as_bit_tuple v = (case v of PyInt n \<Rightarrow> [n] | PyTuple ns \<Rightarrow> ns)"

definition from_repr ::
  "interpreter \<Rightarrow> gbs_class \<Rightarrow> set_store \<Rightarrow> py_str \<Rightarrow> py_error + (set_store \<times> GroupBitSet)" where
  "from_repr I c st repr_string =
     (case REPR_RE_match I c repr_string of
        None \<Rightarrow> Inl ValueError
      | Some group1 \<Rightarrow>
          (case literal_eval I group1 of
             Inl e \<Rightarrow> Inl e
           | Inr v \<Rightarrow>
               GroupBitSet_init c (st @ [set (as_bit_tuple v)]) (FromSet (length st))))"

text \<open>
  The text round trip of the specification, as one expression:
  \<^verbatim>\<open>cls.from_repr(repr(cls(S)))\<close> for a set object \<open>S\<close> at address \<open>r\<close>.
\<close>

definition repr_round_trip ::
  "interpreter \<Rightarrow> gbs_class \<Rightarrow> set_store \<Rightarrow> nat \<Rightarrow> py_error + (set_store \<times> GroupBitSet)" where
  "repr_round_trip I c st r =
     (case GroupBitSet_init c st (FromSet r) of
        Inl e \<Rightarrow> Inl e
      | Inr (st1, g) \<Rightarrow> from_repr I c st1 (GroupBitSet_repr st1 g))"

subsection \<open>The texts that \<^verbatim>\<open>from_repr\<close> decodes, described without the parser\<close>

text \<open>
  The shape the regular expression accepts: the class name, a parenthesised run of
  digits, commas and spaces, and optionally one final newline.
\<close>

definition repr_shape :: "interpreter \<Rightarrow> gbs_class \<Rightarrow> py_str \<Rightarrow> bool" where
  "repr_shape I c s \<longleftrightarrow>
     (\<exists>body. list_all (repr_char I) body \<and>
        (s = class_name c @ 40 # body @ [41] \<or>
         s = class_name c @ 40 # body @ [41, 10]))"

text \<open>
  A decimal literal the compiler accepts: ASCII digits, at least one, no leading zero
  unless all are zeros, within the digit limit.  A padded literal is one with spaces
  around it; it stands for the number the literal denotes.
\<close>

definition spaces_only :: "py_str \<Rightarrow> bool" where
  "spaces_only s \<longleftrightarrow> list_all (\<lambda>ch. ch = 32) s"

definition valid_literal :: "interpreter \<Rightarrow> py_str \<Rightarrow> bool" where
  "valid_literal I ds \<longleftrightarrow>
     ds \<noteq> [] \<and> list_all ascii_digit ds \<and>
     (hd ds \<noteq> 48 \<or> list_all (\<lambda>ch. ch = 48) ds) \<and>
     (int_max_str_digits I = 0 \<or> length ds \<le> int_max_str_digits I)"

definition padded_literal :: "interpreter \<Rightarrow> py_str \<Rightarrow> int \<Rightarrow> bool" where
  "padded_literal I t n \<longleftrightarrow>
     (\<exists>a ds b. t = a @ ds @ b \<and> spaces_only a \<and> spaces_only b \<and> valid_literal I ds \<and>
        n = int (dec_value ds))"

text \<open>
  A list of bits in text: one or more padded literals separated by commas, with an
  optional comma (and spaces) after the last one.
\<close>

inductive elements :: "interpreter \<Rightarrow> py_str \<Rightarrow> int list \<Rightarrow> bool" for I where
  elements_last: "padded_literal I t n \<Longrightarrow> elements I t [n]"
| elements_trailing: "padded_literal I t n \<Longrightarrow> spaces_only b \<Longrightarrow> elements I (t @ 44 # b) [n]"
| elements_more: "padded_literal I t n \<Longrightarrow> elements I r ns \<Longrightarrow> elements I (t @ 44 # r) (n # ns)"

text \<open>
  The text of a list of bits for a class: the class name, \<^verbatim>\<open>(\<close>, nothing but spaces (no
  bit) or a list of bits in text, \<^verbatim>\<open>)\<close>, and optionally one final newline.  The bits
  come in any order and may repeat.
\<close>

definition bit_list_text :: "interpreter \<Rightarrow> gbs_class \<Rightarrow> py_str \<Rightarrow> int list \<Rightarrow> bool" where
  "bit_list_text I c s bits \<longleftrightarrow>
     (\<exists>body. (s = class_name c @ 40 # body @ [41] \<or> s = class_name c @ 40 # body @ [41, 10]) \<and>
        (spaces_only body \<and> bits = [] \<or> elements I body bits))"

text \<open>
  An interpreter for concrete runs: the digit limit is CPython's default, and the table
  of digits outside ASCII holds the Arabic-Indic digits, U+0660 to U+0669.
\<close>

definition some_interpreter :: interpreter where
  "some_interpreter =
     \<lparr>unicode_digit = (\<lambda>ch. 1632 \<le> ch \<and> ch \<le> 1641), int_max_str_digits = 4300\<rparr>"

section \<open>Map entries\<close>

text \<open>
  Modelled from the spec: \<^verbatim>\<open>Vector3\<close> (\<^verbatim>\<open>soulstruct.utilities.maths\<close>) is not under
  \<^verbatim>\<open>src/\<close>.  It is a triple of scalars with componentwise addition and subtraction.  The
  scalar type is a parameter: nothing below depends on which numbers it holds or on any
  law of their arithmetic, so the scalars can be floating-point numbers with their own
  addition.
\<close>

record 'a Vector3 =
  vec_x :: 'a
  vec_y :: 'a
  vec_z :: 'a

definition vec_add :: "('a::plus) Vector3 \<Rightarrow> 'a Vector3 \<Rightarrow> 'a Vector3" where
  "vec_add u v = \<lparr>vec_x = vec_x u + vec_x v, vec_y = vec_y u + vec_y v, vec_z = vec_z u + vec_z v\<rparr>"

definition vec_sub :: "('a::minus) Vector3 \<Rightarrow> 'a Vector3 \<Rightarrow> 'a Vector3" where
  "vec_sub u v = \<lparr>vec_x = vec_x u - vec_x v, vec_y = vec_y u - vec_y v, vec_z = vec_z u - vec_z v\<rparr>"

definition vec_zero :: "('a::zero) Vector3" where
  "vec_zero = \<lparr>vec_x = 0, vec_y = 0, vec_z = 0\<rparr>"

text \<open>
  Modelled from the spec: the entry classes (\<^verbatim>\<open>MSBEntry\<close>, \<^verbatim>\<open>BaseMSBPart\<close>,
  \<^verbatim>\<open>BaseMSBRegion\<close>) are not under \<^verbatim>\<open>src/\<close>.  An entry has a name; parts and regions carry
  \<^verbatim>\<open>translate\<close> and \<^verbatim>\<open>rotate\<close>; \<^verbatim>\<open>reflect_plane_height\<close> is an attribute that some entries
  have (\<open>Some h\<close>) and the others lack (\<open>None\<close>), which is what \<^verbatim>\<open>hasattr\<close> tests.  The
  field \<^verbatim>\<open>rotate\<close> is called \<open>rotate_xyz\<close> here, \<open>rotate\<close> being a list function of HOL.
\<close>

datatype supertype = PartEntry | RegionEntry | OtherEntry

record 'a entry =
  supertype :: supertype
  name :: string
  translate :: "'a Vector3"
  rotate_xyz :: "'a Vector3"
  reflect_plane_height :: "'a option"

section \<open>\<^verbatim>\<open>merge\<close>\<close>

text \<open>
  Modelled from the spec: the classes \<^verbatim>\<open>MSB\<close> and \<^verbatim>\<open>MSBEntryList\<close> are not under \<^verbatim>\<open>src/\<close>.
  An \<^verbatim>\<open>MSB\<close> is a dataclass whose fields are the subtype lists, in declaration order;
  each field holds a reference to an \<^verbatim>\<open>MSBEntryList\<close> object.  List objects are mutable
  (\<^verbatim>\<open>merge\<close> extends one), so they live in a store, as the set objects above.
  \<^verbatim>\<open>fields(msb)\<close> (here \<open>msb_fields\<close>, every record of HOL having a constant \<open>fields\<close>) gives the field names and \<^verbatim>\<open>getattr(msb, name)\<close> the list reference;
  \<^verbatim>\<open>getattr\<close> of a name that is not a field raises \<^verbatim>\<open>AttributeError\<close>, written \<open>None\<close>.
\<close>

type_synonym 'a list_store = "'a entry list list"

type_synonym MSB = "(string \<times> nat) list"

definition msb_fields :: "MSB \<Rightarrow> string list" where
  "msb_fields msb = map fst msb"

definition getattr :: "MSB \<Rightarrow> string \<Rightarrow> nat option" where
  "getattr msb subtype_name = map_of msb subtype_name"

text \<open>
  Modelled from the spec: \<^verbatim>\<open>MSBEntryList.get_filtered_list(predicate)\<close> returns the entries
  for which the predicate is true, or all entries when no predicate is given, and never
  mutates the source; \<^verbatim>\<open>merge\<close> notes that the result is deep-copied.  So it is a new list
  object.  Entries are values here, and a deep copy of a value is that value.
\<close>

definition filtered :: "('a entry \<Rightarrow> bool) option \<Rightarrow> 'a entry list \<Rightarrow> 'a entry list" where
  "filtered filter_func entries =
     (case filter_func of None \<Rightarrow> entries | Some p \<Rightarrow> filter p entries)"

definition get_filtered_list ::
  "'a list_store \<Rightarrow> nat \<Rightarrow> ('a entry \<Rightarrow> bool) option \<Rightarrow> 'a list_store \<times> nat" where
  "get_filtered_list st l filter_func = (st @ [filtered filter_func (st ! l)], length st)"

text \<open>
  Modelled from the spec: \<^verbatim>\<open>MSBEntryList.get_entry_names()\<close> gives the names in list order.
\<close>

definition get_entry_names :: "'a list_store \<Rightarrow> nat \<Rightarrow> string list" where
  "get_entry_names st l = map name (st ! l)"

text \<open>Python's \<^verbatim>\<open>list.extend\<close>: the first list object grows in place.\<close>

definition list_extend :: "'a list_store \<Rightarrow> nat \<Rightarrow> nat \<Rightarrow> 'a list_store" where
  "list_extend st l other = st[l := st ! l @ st ! other]"

text \<open>
  The loop of \<^verbatim>\<open>merge\<close> over the field names.  The dictionary \<^verbatim>\<open>merged_entry_lists\<close> keeps
  insertion order, so it is an association list updated in place or extended at its
  end.  The function returns the store together with the error or the dictionary: the
  store is what an exception leaves behind.  The warning that is logged when repeated
  names are allowed changes no state and is left out.
\<close>

fun merge_loop ::
  "string list \<Rightarrow> MSB \<Rightarrow> MSB \<Rightarrow> ('a entry \<Rightarrow> bool) option \<Rightarrow> bool \<Rightarrow> 'a list_store \<Rightarrow>
   (string \<times> nat) list \<Rightarrow> 'a list_store \<times> (py_error + (string \<times> nat) list)" where
  "merge_loop [] msb_1 msb_2 filter_func allow_repeated_names st merged_entry_lists =
     (st, Inr merged_entry_lists)"
| "merge_loop (subtype_name # subtype_names) msb_1 msb_2 filter_func allow_repeated_names st
       merged_entry_lists =
     (case getattr msb_1 subtype_name of
        None \<Rightarrow> (st, Inl AttributeError)
      | Some l1 \<Rightarrow>
          (case get_filtered_list st l1 filter_func of
             (st1, msb_1_entries) \<Rightarrow>
               (case getattr msb_2 subtype_name of
                  None \<Rightarrow> (st1, Inl AttributeError)
                | Some l2 \<Rightarrow>
                    (case get_filtered_list st1 l2 filter_func of
                       (st2, msb_2_entries) \<Rightarrow>
                         if set (get_entry_names st2 msb_1_entries) \<inter>
                              set (get_entry_names st2 msb_2_entries) \<noteq> {}
                            \<and> \<not> allow_repeated_names
                         then (st2, Inl ValueError)
                         else merge_loop subtype_names msb_1 msb_2 filter_func
                                allow_repeated_names
                                (list_extend st2 msb_1_entries msb_2_entries)
                                (AList.update subtype_name msb_1_entries merged_entry_lists)))))"

text \<open>
  \<^verbatim>\<open>merge\<close>.  The filter is a function by type, so the test that it is callable always
  passes.  The new \<^verbatim>\<open>MSB\<close> built by \<^verbatim>\<open>msb_1.__class__(**merged_entry_lists)\<close> holds the
  merged lists under their field names.
\<close>

definition merge ::
  "MSB \<Rightarrow> MSB \<Rightarrow> ('a entry \<Rightarrow> bool) option \<Rightarrow> bool \<Rightarrow> 'a list_store \<Rightarrow>
   'a list_store \<times> (py_error + MSB)" where
  "merge msb_1 msb_2 filter_func allow_repeated_names st =
     (if msb_fields msb_1 \<noteq> msb_fields msb_2 then (st, Inl TypeError)
      else merge_loop (msb_fields msb_1) msb_1 msb_2 filter_func allow_repeated_names st [])"

text \<open>
  The post-filter entries of one field of a collection, and their names: what the
  statements about \<^verbatim>\<open>merge\<close> compare.
\<close>

definition post_filter ::
  "'a list_store \<Rightarrow> MSB \<Rightarrow> ('a entry \<Rightarrow> bool) option \<Rightarrow> string \<Rightarrow> 'a entry list" where
  "post_filter st msb filter_func subtype_name =
     (case getattr msb subtype_name of
        None \<Rightarrow> []
      | Some l \<Rightarrow> filtered filter_func (st ! l))"

definition valid_msb :: "'a list_store \<Rightarrow> MSB \<Rightarrow> bool" where
  "valid_msb st msb \<longleftrightarrow> distinct (msb_fields msb) \<and> list_all (\<lambda>l. l < length st) (map snd msb)"

text \<open>A part with a given name and nothing else of interest, for concrete collections.\<close>

definition a_part :: "string \<Rightarrow> int entry" where
  "a_part n = \<lparr>supertype = PartEntry, name = n, translate = vec_zero, rotate_xyz = vec_zero,
     reflect_plane_height = None\<rparr>"


section \<open>Transforms of parts and regions\<close>

text \<open>
  Entries are mutable objects: the transforms assign to their attributes.  They live in
  a store of entries, an address being an index.

  Modelled from the spec: the class \<^verbatim>\<open>MSB\<close> is not under \<^verbatim>\<open>src/\<close>.  The transforms see a
  collection through \<^verbatim>\<open>get_parts()\<close> and \<^verbatim>\<open>get_regions()\<close>, the references to its parts
  and to its regions in order, and through \<^verbatim>\<open>resolve_entries_list\<close>.
\<close>

type_synonym 'a entry_store = "'a entry list"

record msb_contents =
  get_parts :: "nat list"
  get_regions :: "nat list"

text \<open>
  A selector is an entry object or a name.

  Modelled from the spec: \<^verbatim>\<open>MSB.resolve_entries_list\<close> is not under \<^verbatim>\<open>src/\<close>.  The
  specification says: a name is looked up among the entries of the allowed supertypes
  (parts and regions in every call of this file); the lookup fails with a not-found
  error when no entry has the name and with an ambiguous-reference error when several
  have it; entry objects pass through unchanged.
\<close>

datatype selector = ByEntry nat | ByName string

definition resolve_entry :: "'a entry_store \<Rightarrow> msb_contents \<Rightarrow> selector \<Rightarrow> py_error + nat" where
  "resolve_entry st msb sel =
     (case sel of
        ByEntry r \<Rightarrow> Inr r
      | ByName n \<Rightarrow>
          (case filter (\<lambda>r. name (st ! r) = n) (get_parts msb @ get_regions msb) of
             [] \<Rightarrow> Inl NotFoundError
           | [r] \<Rightarrow> Inr r
           | r # r' # rs \<Rightarrow> Inl AmbiguousReferenceError))"

fun resolve_entries_list ::
  "'a entry_store \<Rightarrow> msb_contents \<Rightarrow> selector list \<Rightarrow> py_error + nat list" where
  "resolve_entries_list st msb [] = Inr []"
| "resolve_entries_list st msb (sel # sels) =
     (case resolve_entry st msb sel of
        Inl e \<Rightarrow> Inl e
      | Inr r \<Rightarrow>
          (case resolve_entries_list st msb sels of
             Inl e \<Rightarrow> Inl e
           | Inr rs \<Rightarrow> Inr (r # rs)))"

text \<open>
  The test \<^verbatim>\<open>not selected_entries or part in selected_entries\<close>: an empty selection
  selects everything.  Membership is by object identity.
\<close>

definition is_selected :: "nat list \<Rightarrow> nat \<Rightarrow> bool" where
  "is_selected selected_entries r \<longleftrightarrow> selected_entries = [] \<or> r \<in> set selected_entries"

subsection \<open>\<^verbatim>\<open>translate_all\<close>\<close>

definition translate_part :: "('a::plus) Vector3 \<Rightarrow> 'a entry \<Rightarrow> 'a entry" where
  "translate_part t part =
     part\<lparr>translate := vec_add (translate part) t,
          reflect_plane_height :=
            (case reflect_plane_height part of
               None \<Rightarrow> None
             | Some h \<Rightarrow> Some (h + vec_y t))\<rparr>"

definition translate_region :: "('a::plus) Vector3 \<Rightarrow> 'a entry \<Rightarrow> 'a entry" where
  "translate_region t region = region\<lparr>translate := vec_add (translate region) t\<rparr>"

fun translate_parts ::
  "('a::plus) Vector3 \<Rightarrow> nat list \<Rightarrow> nat list \<Rightarrow> 'a entry_store \<Rightarrow> 'a entry_store" where
  "translate_parts t selected_entries [] st = st"
| "translate_parts t selected_entries (part # parts) st =
     translate_parts t selected_entries parts
       (if is_selected selected_entries part
        then st[part := translate_part t (st ! part)]
        else st)"

fun translate_regions ::
  "('a::plus) Vector3 \<Rightarrow> nat list \<Rightarrow> nat list \<Rightarrow> 'a entry_store \<Rightarrow> 'a entry_store" where
  "translate_regions t selected_entries [] st = st"
| "translate_regions t selected_entries (region # regions) st =
     translate_regions t selected_entries regions
       (if is_selected selected_entries region
        then st[region := translate_region t (st ! region)]
        else st)"

definition translate_all ::
  "'a entry_store \<Rightarrow> msb_contents \<Rightarrow> ('a::plus) Vector3 \<Rightarrow> selector list \<Rightarrow>
   py_error + 'a entry_store" where
  "translate_all st msb t selected_entries =
     (case resolve_entries_list st msb selected_entries of
        Inl e \<Rightarrow> Inl e
      | Inr selected \<Rightarrow>
          Inr (translate_regions t selected (get_regions msb)
                 (translate_parts t selected (get_parts msb) st)))"

subsection \<open>\<^verbatim>\<open>rotate_part_or_region\<close>, \<^verbatim>\<open>rotate_all_in_world\<close> and \<^verbatim>\<open>move_map\<close>\<close>

text \<open>
  \<^verbatim>\<open>Matrix3\<close> (\<^verbatim>\<open>soulstruct.utilities.maths\<close>) is not under \<^verbatim>\<open>src/\<close>.  The matrix type and
  its operations are parameters: the conversion from Euler angles (with its \<^verbatim>\<open>radians\<close>
  flag), the conversion back, the product of two matrices and of a matrix and a
  vector (both written \<^verbatim>\<open>@\<close> in the source), and the transpose (\<^verbatim>\<open>.T\<close>).
\<close>

record ('a, 'm) Matrix3_ops =
  from_euler_angles :: "'a Vector3 \<Rightarrow> bool \<Rightarrow> 'm"
  to_euler_angles :: "'m \<Rightarrow> 'a Vector3"
  mat_mul :: "'m \<Rightarrow> 'm \<Rightarrow> 'm"
  mat_vec :: "'m \<Rightarrow> 'a Vector3 \<Rightarrow> 'a Vector3"
  mat_T :: "'m \<Rightarrow> 'm"

text \<open>
  The rotation argument: a matrix, an Euler triple (a \<^verbatim>\<open>Vector3\<close>, list or tuple), or a
  single number.

  Modelled from the spec: \<^verbatim>\<open>resolve_rotation\<close> (\<^verbatim>\<open>soulstruct.utilities.maths\<close>) is not
  under \<^verbatim>\<open>src/\<close>.  The specification says: it converts a rotation given as an Euler
  triple, as a rotation matrix or as a single scalar meaning rotation about the vertical
  axis only into a rotation matrix, in degrees unless \<^verbatim>\<open>radians=True\<close>.  A matrix is
  already the result.
\<close>

datatype ('a, 'm) rotation = AsMatrix 'm | AsEuler "'a Vector3" | AsScalar 'a

definition resolve_rotation ::
  "('a::zero, 'm) Matrix3_ops \<Rightarrow> ('a, 'm) rotation \<Rightarrow> bool \<Rightarrow> 'm" where
  "resolve_rotation ops rot radians =
     (case rot of
        AsMatrix m \<Rightarrow> m
      | AsEuler v \<Rightarrow> from_euler_angles ops v radians
      | AsScalar a \<Rightarrow> from_euler_angles ops \<lparr>vec_x = 0, vec_y = a, vec_z = 0\<rparr> radians)"

text \<open>
  \<^verbatim>\<open>rotate_part_or_region\<close>.  Its first statement is
  \<^verbatim>\<open>if not isinstance(entry, (BaseMSBPart, BaseMSBRegion))\<close>.  The module imports
  \<^verbatim>\<open>BaseMSBPart\<close> and \<^verbatim>\<open>BaseMSBRegion\<close> only under \<^verbatim>\<open>if tp.TYPE_CHECKING:\<close>, which is
  false when the program runs, and binds them nowhere else.  So evaluating the tuple
  raises \<^verbatim>\<open>NameError\<close>, for every entry and every rotation, before the entry is
  touched; the statements after the test (the rotation law, the same as in
  \<^verbatim>\<open>rotate_entry\<close>) are never reached.
\<close>

definition rotate_part_or_region ::
  "('a::{zero,plus,minus}, 'm) Matrix3_ops \<Rightarrow> 'a entry \<Rightarrow> ('a, 'm) rotation \<Rightarrow>
   'a Vector3 option \<Rightarrow> bool \<Rightarrow> py_error + 'a entry" where
  "rotate_part_or_region ops e rot pivot_point radians = Inl NameError"

text \<open>
  The two loops of \<^verbatim>\<open>rotate_all_in_world\<close>, over the parts and over the regions.  An
  exception ends the loop; the entries handled before it keep their new values, and
  there are none when the first selected entry already raises.
\<close>

fun rotate_entries ::
  "('a::{zero,plus,minus}, 'm) Matrix3_ops \<Rightarrow> ('a, 'm) rotation \<Rightarrow> 'a Vector3 \<Rightarrow> bool \<Rightarrow>
   nat list \<Rightarrow> nat list \<Rightarrow> 'a entry_store \<Rightarrow> py_error + 'a entry_store" where
  "rotate_entries ops rot pivot radians selected_entries [] st = Inr st"
| "rotate_entries ops rot pivot radians selected_entries (r # rs) st =
     (if is_selected selected_entries r then
        (case rotate_part_or_region ops (st ! r) rot (Some pivot) radians of
           Inl e \<Rightarrow> Inl e
         | Inr e' \<Rightarrow> rotate_entries ops rot pivot radians selected_entries rs (st[r := e']))
      else rotate_entries ops rot pivot radians selected_entries rs st)"

text \<open>
  \<^verbatim>\<open>rotate_all_in_world\<close>.  The rotation is turned into a matrix first, by
  \<^verbatim>\<open>resolve_rotation(rotation)\<close>, a call that does not pass \<^verbatim>\<open>radians\<close> on; the matrix and
  \<^verbatim>\<open>radians\<close> then go to \<^verbatim>\<open>rotate_part_or_region\<close> for each selected part and region.
\<close>

definition rotate_all_in_world ::
  "'a entry_store \<Rightarrow> msb_contents \<Rightarrow> ('a::{zero,plus,minus}, 'm) Matrix3_ops \<Rightarrow>
   ('a, 'm) rotation \<Rightarrow> 'a Vector3 option \<Rightarrow> bool \<Rightarrow> selector list \<Rightarrow>
   py_error + 'a entry_store" where
  "rotate_all_in_world st msb ops rot pivot_point radians selected_entries =
     (case resolve_entries_list st msb selected_entries of
        Inl e \<Rightarrow> Inl e
      | Inr selected \<Rightarrow>
          let rotation_m = resolve_rotation ops rot False;
              pivot = (case pivot_point of None \<Rightarrow> vec_zero | Some p \<Rightarrow> p)
          in (case rotate_entries ops (AsMatrix rotation_m) pivot radians selected
                     (get_parts msb) st of
                Inl e \<Rightarrow> Inl e
              | Inr st1 \<Rightarrow>
                  rotate_entries ops (AsMatrix rotation_m) pivot radians selected
                    (get_regions msb) st1))"

text \<open>
  \<^verbatim>\<open>move_map\<close>.  The selection is resolved, the four frame values default to the zero
  vector, the world rotation and the translation are computed, and then
  \<^verbatim>\<open>rotate_all_in_world\<close> (default pivot, default \<^verbatim>\<open>radians\<close>) and \<^verbatim>\<open>translate_all\<close> are
  called in this order with the resolved entries as their selection.  An exception of
  the first call ends \<^verbatim>\<open>move_map\<close>: \<^verbatim>\<open>translate_all\<close> is not called.
\<close>

definition move_map ::
  "'a entry_store \<Rightarrow> msb_contents \<Rightarrow> ('a::{zero,plus,minus}, 'm) Matrix3_ops \<Rightarrow>
   'a Vector3 option \<Rightarrow> 'a Vector3 option \<Rightarrow> 'a Vector3 option \<Rightarrow> 'a Vector3 option \<Rightarrow>
   selector list \<Rightarrow> py_error + 'a entry_store" where
  "move_map st msb ops start_translate end_translate start_rotate end_rotate selected_entries =
     (case resolve_entries_list st msb selected_entries of
        Inl e \<Rightarrow> Inl e
      | Inr selected \<Rightarrow>
          let start_translate' = (case start_translate of None \<Rightarrow> vec_zero | Some v \<Rightarrow> v);
              end_translate' = (case end_translate of None \<Rightarrow> vec_zero | Some v \<Rightarrow> v);
              start_rotate' = (case start_rotate of None \<Rightarrow> vec_zero | Some v \<Rightarrow> v);
              end_rotate' = (case end_rotate of None \<Rightarrow> vec_zero | Some v \<Rightarrow> v);
              m_start_rotate = from_euler_angles ops start_rotate' False;
              m_end_rotate = from_euler_angles ops end_rotate' False;
              m_world_rotation = mat_mul ops m_end_rotate (mat_T ops m_start_rotate);
              translation = vec_sub end_translate' (mat_vec ops m_world_rotation start_translate')
          in (case rotate_all_in_world st msb ops (AsMatrix m_world_rotation) None False
                     (map ByEntry selected) of
                Inl e \<Rightarrow> Inl e
              | Inr st1 \<Rightarrow> translate_all st1 msb translation (map ByEntry selected)))"

text \<open>
  Concrete matrix operations for concrete runs: integer scalars and a one-number
  stand-in for matrices.  Which operations they are does not matter to what is run
  with them, since \<^verbatim>\<open>rotate_part_or_region\<close> raises before it uses any.
\<close>

definition some_ops :: "(int, int) Matrix3_ops" where
  "some_ops =
     \<lparr>from_euler_angles = (\<lambda>v radians. vec_y v),
      to_euler_angles = (\<lambda>m. \<lparr>vec_x = 0, vec_y = m, vec_z = 0\<rparr>),
      mat_mul = (\<lambda>m n. m + n),
      mat_vec = (\<lambda>m v. v),
      mat_T = (\<lambda>m. - m)\<rparr>"

text \<open>
  The part of the specification's scenario: \<^verbatim>\<open>reflect_plane_height\<close> 5 and height 0.
\<close>

definition entry_A :: "int entry" where
  "entry_A = \<lparr>supertype = PartEntry, name = ''A'',
     translate = \<lparr>vec_x = 1, vec_y = 0, vec_z = 3\<rparr>, rotate_xyz = vec_zero,
     reflect_plane_height = Some 5\<rparr>"


section \<open>Properties of \<^verbatim>\<open>GroupBitSet\<close>\<close>

subsection \<open>Range enforcement\<close>

lemma BIT_COUNT_pos: "0 < BIT_COUNT c"
  by (cases c) simp_all

text \<open>
  Claim C1: a bit outside \<open>[0, BIT_COUNT)\<close> is refused with a range error at \<open>add\<close> and at
  construction from a set; in particular \<open>add(BIT_COUNT)\<close> and \<open>add(-1)\<close> fail and
  \<open>add(BIT_COUNT - 1)\<close> succeeds.

  The guard of \<^verbatim>\<open>add\<close> is \<^verbatim>\<open>not 0 <= bit <= self.BIT_COUNT\<close>, so the bit \<open>BIT_COUNT\<close>
  itself passes it, although the message of the error it guards calls the set
  \<open>BIT_COUNT\<close>-bit and the constructor tests \<^verbatim>\<open>i < self.BIT_COUNT\<close>.  The theorem runs
  \<^verbatim>\<open>add(128)\<close> on an empty \<^verbatim>\<open>GroupBitSet128\<close> and \<^verbatim>\<open>add(256)\<close> on an empty
  \<^verbatim>\<open>GroupBitSet256\<close>: both return normally with the bit stored.  The neighbouring cases
  behave as claimed: \<open>-1\<close> and \<open>BIT_COUNT + 1\<close> raise, \<open>BIT_COUNT - 1\<close> is stored.
\<close>

theorem add_BIT_COUNT_is_accepted:
  "GroupBitSet_add [{}] \<lparr>cls = GroupBitSet128, enabled_bits = 0\<rparr> 128 = Inr [{128}] \<and>
   GroupBitSet_add [{}] \<lparr>cls = GroupBitSet256, enabled_bits = 0\<rparr> 256 = Inr [{256}] \<and>
   GroupBitSet_add [{}] \<lparr>cls = GroupBitSet128, enabled_bits = 0\<rparr> (- 1) = Inl ValueError \<and>
   GroupBitSet_add [{}] \<lparr>cls = GroupBitSet128, enabled_bits = 0\<rparr> 129 = Inl ValueError \<and>
   GroupBitSet_add [{}] \<lparr>cls = GroupBitSet128, enabled_bits = 0\<rparr> 127 = Inr [{127}]"
  by (simp add: GroupBitSet_add_def)

lemma add_range:
  "GroupBitSet_add st self b =
     (if 0 \<le> b \<and> b \<le> BIT_COUNT (cls self)
      then Inr (st[enabled_bits self := insert b (st ! enabled_bits self)])
      else Inl ValueError)"
  by (simp add: GroupBitSet_add_def)

lemma init_FromSet_negative:
  "GroupBitSet_init GroupBitSet128 [{- 1}] (FromSet 0) =
     Inr ([{- 1}], \<lparr>cls = GroupBitSet128, enabled_bits = 0\<rparr>)"
  by (simp add: GroupBitSet_init_def)

subsection \<open>Construction from words\<close>

text \<open>
  Claim C2: construction from a list of words fails with a size-mismatch error unless
  the list has exactly \<open>BIT_COUNT / 32\<close> words.

  The constructor passes \<^verbatim>\<open>assert_size=len(uint_list_or_bit_set)\<close>, the length of the very
  list it decodes, so the size test of the helper compares the length with itself.  The
  theorem builds a \<^verbatim>\<open>GroupBitSet128\<close> from three words and from five words: both
  constructions succeed, and the second one enables bit 128.
\<close>

theorem init_FromList_any_length:
  "GroupBitSet_init GroupBitSet128 [] (FromList [1, 0, 0]) =
     Inr ([{0}], \<lparr>cls = GroupBitSet128, enabled_bits = 0\<rparr>) \<and>
   GroupBitSet_init GroupBitSet128 [] (FromList [0, 0, 0, 0, 1]) =
     Inr ([{128}], \<lparr>cls = GroupBitSet128, enabled_bits = 0\<rparr>)"
  by code_simp

theorem init_FromList_any_length_witness:
  "GroupBitSet_init GroupBitSet128 [] (FromList [0, 0, 0, 0, 1]) \<noteq> Inl SizeMismatchError \<and>
   (case GroupBitSet_init GroupBitSet128 [] (FromList [0, 0, 0, 0, 1]) of
      Inl e \<Rightarrow> False
    | Inr (st, g) \<Rightarrow> to_sorted_bit_list st g = [128])"
  using init_FromList_any_length by (simp add: to_sorted_bit_list_def)

lemma init_FromList_never_size_error:
  "GroupBitSet_init c st (FromList ws) \<noteq> Inl SizeMismatchError"
  by (simp add: GroupBitSet_init_def int_group_to_bit_set_def)

subsection \<open>Word round trip\<close>

lemma bit_word_sum:
  "bit (\<Sum>i\<leftarrow>[0..<n]. if P i then 2 ^ i else 0 :: int) j \<longleftrightarrow> j < n \<and> P j"
proof -
  have "(\<Sum>i\<leftarrow>[0..<n]. if P i then 2 ^ i else 0 :: int) = horner_sum of_bool 2 (map P [0..<n])"
  proof -
    have "(\<Sum>i = 0..<n. of_bool (map P [0..<n] ! i) * 2 ^ i) =
          (\<Sum>i = 0..<n. if P i then 2 ^ i else 0 :: int)"
      by (rule sum.cong) auto
    then show ?thesis
      by (simp add: horner_sum_eq_sum interv_sum_list_conv_sum_set_nat)
  qed
  then show ?thesis
    by (auto simp add: bit_horner_sum_bit_iff)
qed

lemma decode_encode:
  assumes "\<forall>b\<in>S. 0 \<le> b \<and> b < int (32 * n)"
  shows "int_group_to_bit_set (bit_set_to_int_group S n) n = Inr S"
proof -
  have "set (concat (map
          (\<lambda>w. map (\<lambda>i. int (32 * w + i))
                 (filter (\<lambda>i. bit (bit_set_to_int_group S n ! w) i) [0..<32]))
          [0..<n])) = S" (is "?L = S")
  proof (rule set_eqI)
    fix b
    show "b \<in> ?L \<longleftrightarrow> b \<in> S"
    proof
      assume "b \<in> ?L"
      then obtain w i where w: "w < n" and i: "i < 32" and b: "b = int (32 * w + i)"
        and bt: "bit (bit_set_to_int_group S n ! w) i"
        by auto
      from w bt have "int (32 * w + i) \<in> S"
        by (simp add: bit_set_to_int_group_def bit_word_sum)
      with b show "b \<in> S" by simp
    next
      assume bS: "b \<in> S"
      with assms have r: "0 \<le> b" "b < int (32 * n)" by auto
      define k where "k = nat b"
      have kb: "b = int k" and kn: "k < 32 * n" using r by (auto simp: k_def)
      define w where "w = k div 32"
      define i where "i = k mod 32"
      have w: "w < n" using kn by (simp add: w_def less_mult_imp_div_less mult.commute)
      have i: "i < 32" by (simp add: i_def)
      have k: "k = 32 * w + i" by (simp add: w_def i_def)
      have "bit (bit_set_to_int_group S n ! w) i"
        using w i bS kb k by (simp add: bit_set_to_int_group_def bit_word_sum)
      with w i show "b \<in> ?L" unfolding kb k by auto
    qed
  qed
  then show ?thesis
    by (simp add: int_group_to_bit_set_def bit_set_to_int_group_def)
qed

lemma init_FromSet_ok:
  "\<forall>i \<in> st ! r. i < BIT_COUNT c \<Longrightarrow>
   GroupBitSet_init c st (FromSet r) = Inr (st, \<lparr>cls = c, enabled_bits = r\<rparr>)"
  by (simp add: GroupBitSet_init_def)

lemma group_size_mult: "int (32 * nat (BIT_COUNT c div 32)) = BIT_COUNT c"
  by (cases c) simp_all

text \<open>
  Claim C3: for a set \<open>S\<close> of bit indices, all in \<open>[0, BIT_COUNT)\<close>, building a
  \<^verbatim>\<open>GroupBitSet\<close> from \<open>S\<close>, encoding it with \<^verbatim>\<open>to_uints\<close> (which gives \<open>BIT_COUNT / 32\<close>
  words), decoding the words with the constructor and reading \<^verbatim>\<open>to_sorted_bit_list\<close>
  gives the elements of \<open>S\<close> in ascending order.  The set object \<open>S\<close> is the cell \<open>r\<close> of
  the store.
\<close>

theorem words_round_trip_sorted:
  assumes "r < length st" and "\<forall>i \<in> st ! r. 0 \<le> i \<and> i < BIT_COUNT c"
  shows "words_round_trip c st r = Inr (sorted_list_of_set (st ! r)) \<and>
         length (to_uints st \<lparr>cls = c, enabled_bits = r\<rparr>) = nat (BIT_COUNT c div 32)"
proof -
  let ?g = "\<lparr>cls = c, enabled_bits = r\<rparr>"
  let ?n = "nat (BIT_COUNT c div 32)"
  have 1: "GroupBitSet_init c st (FromSet r) = Inr (st, ?g)"
    using assms(2) by (simp add: init_FromSet_ok)
  have len: "length (to_uints st ?g) = ?n"
    by (simp add: to_uints_def bit_set_to_int_group_def)
  have "\<forall>b \<in> st ! r. 0 \<le> b \<and> b < int (32 * ?n)"
    using assms(2) by (simp only: group_size_mult)
  then have dec: "int_group_to_bit_set (to_uints st ?g) ?n = Inr (st ! r)"
    by (simp add: to_uints_def decode_encode)
  have 2: "GroupBitSet_init c st (FromList (to_uints st ?g)) =
             Inr (st @ [st ! r], \<lparr>cls = c, enabled_bits = length st\<rparr>)"
    using dec len by (simp add: GroupBitSet_init_def)
  have 3: "to_sorted_bit_list (st @ [st ! r]) \<lparr>cls = c, enabled_bits = length st\<rparr> =
             sorted_list_of_set (st ! r)"
    by (simp add: to_sorted_bit_list_def)
  from 1 len 2 3 show ?thesis by (simp add: words_round_trip_def)
qed

theorem words_round_trip_sorted_witness:
  "words_round_trip GroupBitSet128 [{0, 5, 127}] 0 = Inr [0, 5, 127] \<and>
   length (to_uints [{0, 5, 127}] \<lparr>cls = GroupBitSet128, enabled_bits = 0\<rparr>) = 4"
proof -
  have s: "sorted_list_of_set {0, 5, 127 :: int} = [0, 5, 127]"
    by code_simp
  show ?thesis
    using words_round_trip_sorted [of 0 "[{0, 5, 127}]" GroupBitSet128]
    by (simp add: s)
qed

subsection \<open>Construction from another instance\<close>

text \<open>
  Claim C9: a \<^verbatim>\<open>GroupBitSet\<close> built from another instance of the same width is an
  independent copy, so \<open>add\<close> or \<open>remove\<close> on one leaves the other's \<^verbatim>\<open>enabled_bits\<close>
  unchanged.

  The branch is commented \<^verbatim>\<open># Just copy bits from other instance.\<close> but assigns
  \<^verbatim>\<open>self.enabled_bits = uint_list_or_bit_set.enabled_bits\<close>: both instances then refer to
  the same set object.  The theorem builds \<open>B\<close> from \<open>A\<close> (whose set is \<open>{1}\<close>), calls
  \<^verbatim>\<open>B.add(2)\<close> and reads \<open>A\<close>: \<open>A\<close> now holds \<open>[1, 2]\<close>; then \<^verbatim>\<open>A.remove(1)\<close> and \<open>B\<close> holds
  \<open>[2]\<close>.
\<close>

theorem init_FromInstance_shares_bits:
  "GroupBitSet_init GroupBitSet128 [{1}] (FromInstance \<lparr>cls = GroupBitSet128, enabled_bits = 0\<rparr>) =
     Inr ([{1}], \<lparr>cls = GroupBitSet128, enabled_bits = 0\<rparr>) \<and>
   to_sorted_bit_list [{1}] \<lparr>cls = GroupBitSet128, enabled_bits = 0\<rparr> = [1] \<and>
   GroupBitSet_add [{1}] \<lparr>cls = GroupBitSet128, enabled_bits = 0\<rparr> 2 = Inr [{1, 2}] \<and>
   to_sorted_bit_list [{1, 2}] \<lparr>cls = GroupBitSet128, enabled_bits = 0\<rparr> = [1, 2] \<and>
   GroupBitSet_remove [{1, 2}] \<lparr>cls = GroupBitSet128, enabled_bits = 0\<rparr> 1 = Inr [{2}] \<and>
   to_sorted_bit_list [{2}] \<lparr>cls = GroupBitSet128, enabled_bits = 0\<rparr> = [2]"
  by code_simp

theorem init_FromInstance_shares_bits_witness:
  "(case GroupBitSet_init GroupBitSet128 [{1}]
           (FromInstance \<lparr>cls = GroupBitSet128, enabled_bits = 0\<rparr>) of
      Inl e \<Rightarrow> False
    | Inr (st, b) \<Rightarrow>
        (case GroupBitSet_add st b 2 of
           Inl e \<Rightarrow> False
         | Inr st' \<Rightarrow> to_sorted_bit_list st' \<lparr>cls = GroupBitSet128, enabled_bits = 0\<rparr> = [1, 2]))"
  using init_FromInstance_shares_bits by simp

lemma init_FromInstance_same_cell:
  "GroupBitSet_init c st (FromInstance a) = Inr (st', b) \<Longrightarrow>
     st' = st \<and> enabled_bits b = enabled_bits a"
  by (auto simp: GroupBitSet_init_def split: if_splits)


subsection \<open>Text round trip and the texts decoded\<close>















lemma padded_literal_space: "padded_literal I t n \<Longrightarrow> padded_literal I (32 # t) n"
proof -
  assume "padded_literal I t n"
  then obtain a ds b where "t = a @ ds @ b" "spaces_only a" "spaces_only b" "valid_literal I ds"
    "n = int (dec_value ds)" unfolding padded_literal_def by blast
  then have "32 # t = (32 # a) @ ds @ b \<and> spaces_only (32 # a) \<and> spaces_only b \<and>
     valid_literal I ds \<and> n = int (dec_value ds)" by (simp add: spaces_only_def)
  then show ?thesis unfolding padded_literal_def by blast
qed

lemma padded_literal_append_spaces:
  "padded_literal I t n \<Longrightarrow> spaces_only b \<Longrightarrow> padded_literal I (t @ b) n"
proof -
  assume "padded_literal I t n" and b: "spaces_only b"
  then obtain a ds b' where "t = a @ ds @ b'" "spaces_only a" "spaces_only b'" "valid_literal I ds"
    "n = int (dec_value ds)" unfolding padded_literal_def by blast
  with b have "t @ b = a @ ds @ (b' @ b) \<and> spaces_only a \<and> spaces_only (b' @ b) \<and>
     valid_literal I ds \<and> n = int (dec_value ds)" by (simp add: spaces_only_def)
  then show ?thesis unfolding padded_literal_def by blast
qed

lemma elements_space: "elements I r ns \<Longrightarrow> elements I (32 # r) ns"
proof (induction rule: elements.cases)
  case (elements_last t n)
  then show ?case using elements.elements_last [OF padded_literal_space] by simp
next
  case (elements_trailing t n b)
  then show ?case
    using elements.elements_trailing [OF padded_literal_space, of I t n b] by simp
next
  case (elements_more t n r' ns')
  then show ?case
    using elements.elements_more [OF padded_literal_space, of I t n r' ns'] by simp
qed

lemma elements_spaces: "spaces_only a \<Longrightarrow> elements I r ns \<Longrightarrow> elements I (a @ r) ns"
  by (induction a) (auto simp: spaces_only_def elements_space)


lemma tokenize_Nil [simp]: "tokenize I [] = Some []"
  by (simp add: tokenize.simps)

lemma tokenize_space [simp]: "tokenize I (32 # s) = tokenize I s"
  by (simp add: tokenize.simps)

lemma tokenize_comma [simp]: "tokenize I (44 # s) = map_option (\<lambda>ts. COMMA # ts) (tokenize I s)"
  by (simp add: tokenize.simps)



























lemma spaces_repr_chars: "spaces_only b \<Longrightarrow> list_all (repr_char I) b"
  by (simp add: spaces_only_def list_all_iff repr_char_def)

lemma padded_literal_chars: "padded_literal I t n \<Longrightarrow> list_all (repr_char I) t"
  unfolding padded_literal_def
  by (auto simp: spaces_only_def valid_literal_def list_all_iff repr_char_def re_digit_def)

lemma comma_repr_char: "repr_char I 44"
  by (simp add: repr_char_def)

lemma elements_chars: "elements I body ns \<Longrightarrow> list_all (repr_char I) body"
  by (induction rule: elements.induct)
     (simp_all add: padded_literal_chars spaces_repr_chars comma_repr_char)

lemma bit_list_text_shape: "bit_list_text I c s bits \<Longrightarrow> repr_shape I c s"
  unfolding bit_list_text_def repr_shape_def
  using elements_chars spaces_repr_chars by blast















text \<open>The round trip on the empty set and on a set of one bit.\<close>

lemma repr_round_trip_small_cases:
  "GroupBitSet_repr [{}] \<lparr>cls = GroupBitSet256, enabled_bits = 0\<rparr> = ascii_text ''GroupBitSet256()''"
  "repr_round_trip some_interpreter GroupBitSet256 [{}] 0 =
     Inr ([{}, {}], \<lparr>cls = GroupBitSet256, enabled_bits = 1\<rparr>)"
  "GroupBitSet_repr [{5}] \<lparr>cls = GroupBitSet256, enabled_bits = 0\<rparr> = ascii_text ''GroupBitSet256(5)''"
  "repr_round_trip some_interpreter GroupBitSet256 [{5}] 0 =
     Inr ([{5}, {5}], \<lparr>cls = GroupBitSet256, enabled_bits = 1\<rparr>)"
  by code_simp+


section \<open>Properties of \<^verbatim>\<open>merge\<close>\<close>

lemma update_beyond_prefix:
  "length st0 \<le> l \<Longrightarrow> (st0 @ ex)[l := v] = st0 @ ex[l - length st0 := v]"
  by (simp add: list_update_append)

lemma merge_loop_keeps_prefix:
  "\<exists>ex'. fst (merge_loop ns msb_1 msb_2 f allow (st0 @ ex) merged) = st0 @ ex'"
proof (induction ns arbitrary: ex merged)
  case Nil
  show ?case by simp
next
  case (Cons n ns)
  show ?case
  proof (cases "getattr msb_1 n")
    case None
    then show ?thesis by simp
  next
    case l1: (Some l1)
    show ?thesis
    proof (cases "getattr msb_2 n")
      case None
      with l1 show ?thesis by (simp add: get_filtered_list_def)
    next
      case l2: (Some l2)
      let ?s2 = "st0 @ ex @ [filtered f ((st0 @ ex) ! l1),
                   filtered f (((st0 @ ex) @ [filtered f ((st0 @ ex) ! l1)]) ! l2)]"
      have ext: "\<exists>ex''. list_extend ?s2 (length (st0 @ ex)) (Suc (length (st0 @ ex))) = st0 @ ex''"
        unfolding list_extend_def by (subst update_beyond_prefix) auto
      then obtain ex'' where ex'': "list_extend ?s2 (length (st0 @ ex)) (Suc (length (st0 @ ex))) = st0 @ ex''"
        by blast
      from Cons.IH [of ex'' "AList.update n (length (st0 @ ex)) merged"]
      obtain ex' where "fst (merge_loop ns msb_1 msb_2 f allow (st0 @ ex'')
           (AList.update n (length (st0 @ ex)) merged)) = st0 @ ex'" by blast
      with l1 l2 ex'' show ?thesis
        by (auto simp: get_filtered_list_def)
    qed
  qed
qed

lemma merge_keeps_store:
  "take (length st) (fst (merge msb_1 msb_2 f allow st)) = st"
proof (cases "msb_fields msb_1 = msb_fields msb_2")
  case False
  then show ?thesis by (simp add: merge_def)
next
  case True
  obtain ex' where "fst (merge_loop (msb_fields msb_1) msb_1 msb_2 f allow (st @ []) []) = st @ ex'"
    using merge_loop_keeps_prefix by blast
  with True show ?thesis by (simp add: merge_def)
qed

lemma merge_loop_step:
  assumes "getattr msb_1 n = Some l1" and "getattr msb_2 n = Some l2"
    and "l1 < length st0" and "l2 < length st0"
  shows "merge_loop (n # ns) msb_1 msb_2 f allow (st0 @ ex) merged =
     (if set (map name (filtered f (st0 ! l1))) \<inter> set (map name (filtered f (st0 ! l2))) \<noteq> {}
         \<and> \<not> allow
      then (st0 @ ex @ [filtered f (st0 ! l1), filtered f (st0 ! l2)], Inl ValueError)
      else merge_loop ns msb_1 msb_2 f allow
             (st0 @ ex @ [filtered f (st0 ! l1) @ filtered f (st0 ! l2), filtered f (st0 ! l2)])
             (AList.update n (length st0 + length ex) merged))"
  using assms
  by (simp add: get_filtered_list_def get_entry_names_def list_extend_def nth_append list_update_append)

lemma getattr_valid:
  assumes "valid_msb st msb" and "n \<in> set (msb_fields msb)"
  shows "\<exists>l. getattr msb n = Some l \<and> l < length st"
proof -
  from assms(2) obtain l where l: "(n, l) \<in> set msb" by (auto simp: msb_fields_def)
  with assms(1) have "map_of msb n = Some l" by (simp add: valid_msb_def msb_fields_def)
  moreover from l assms(1) have "l < length st"
    by (auto simp: valid_msb_def list_all_iff)
  ultimately show ?thesis by (simp add: getattr_def)
qed

lemma post_filter_eq: "getattr msb n = Some l \<Longrightarrow> post_filter st msb f n = filtered f (st ! l)"
  by (simp add: post_filter_def)

lemma merge_loop_collision:
  assumes v1: "valid_msb st0 msb_1" and v2: "valid_msb st0 msb_2"
    and sub1: "set ns \<subseteq> set (msb_fields msb_1)" and sub2: "set ns \<subseteq> set (msb_fields msb_2)"
    and clash: "\<exists>n \<in> set ns. set (map name (post_filter st0 msb_1 f n)) \<inter>
                                set (map name (post_filter st0 msb_2 f n)) \<noteq> {}"
  shows "snd (merge_loop ns msb_1 msb_2 f False (st0 @ ex) merged) = Inl ValueError"
  using sub1 sub2 clash
proof (induction ns arbitrary: ex merged)
  case Nil
  then show ?case by simp
next
  case (Cons n ns)
  from Cons.prems(1) v1 obtain l1 where l1: "getattr msb_1 n = Some l1" "l1 < length st0"
    using getattr_valid [of st0 msb_1 n] by auto
  from Cons.prems(2) v2 obtain l2 where l2: "getattr msb_2 n = Some l2" "l2 < length st0"
    using getattr_valid [of st0 msb_2 n] by auto
  note step = merge_loop_step [OF l1(1) l2(1) l1(2) l2(2), of ns f False ex merged]
  show ?case
  proof (cases "set (map name (filtered f (st0 ! l1))) \<inter> set (map name (filtered f (st0 ! l2))) \<noteq> {}")
    case True
    with step show ?thesis by simp
  next
    case False
    with Cons.prems(3) l1 l2
    have rest: "\<exists>m \<in> set ns. set (map name (post_filter st0 msb_1 f m)) \<inter>
                                 set (map name (post_filter st0 msb_2 f m)) \<noteq> {}"
      by (auto simp: post_filter_eq)
    have "snd (merge_loop ns msb_1 msb_2 f False
            (st0 @ (ex @ [filtered f (st0 ! l1) @ filtered f (st0 ! l2), filtered f (st0 ! l2)]))
            (AList.update n (length st0 + length ex) merged)) = Inl ValueError"
      using Cons.prems(1,2) rest by (intro Cons.IH) auto
    with step False show ?thesis by simp
  qed
qed

text \<open>
  Claim C6: for two collections with the same field names, when repeated names are not
  allowed and some name occurs in both sides' post-filter lists of one subtype, \<^verbatim>\<open>merge\<close>
  raises the name-collision error (\<^verbatim>\<open>ValueError\<close>), so no collection is returned, and the
  list objects that existed before the call, those of both inputs among them, are what
  they were: the store left behind starts with the store the call was given.
\<close>

theorem merge_collision_rejected:
  assumes "valid_msb st msb_1" and "valid_msb st msb_2"
    and "msb_fields msb_1 = msb_fields msb_2"
    and "\<exists>n \<in> set (msb_fields msb_1). set (map name (post_filter st msb_1 f n)) \<inter>
                                     set (map name (post_filter st msb_2 f n)) \<noteq> {}"
  shows "snd (merge msb_1 msb_2 f False st) = Inl ValueError \<and>
         take (length st) (fst (merge msb_1 msb_2 f False st)) = st"
proof -
  have "snd (merge_loop (msb_fields msb_1) msb_1 msb_2 f False (st @ []) []) = Inl ValueError"
    using assms by (intro merge_loop_collision) auto
  with assms(3) have "snd (merge msb_1 msb_2 f False st) = Inl ValueError"
    by (simp add: merge_def)
  then show ?thesis
    using merge_keeps_store [of st msb_1 msb_2 f False] by simp
qed

theorem merge_collision_rejected_witness:
  "merge [(''characters'', 0), (''objects'', 1)] [(''characters'', 2), (''objects'', 3)] None False
     [[a_part ''c0000''], [a_part ''o1000''], [a_part ''c0001''], [a_part ''o1000'']] =
   ([[a_part ''c0000''], [a_part ''o1000''], [a_part ''c0001''], [a_part ''o1000''],
     [a_part ''c0000'', a_part ''c0001''], [a_part ''c0001''],
     [a_part ''o1000''], [a_part ''o1000'']], Inl ValueError)"
proof -
  let ?m1 = "[(''characters'', 0), (''objects'', 1 :: nat)]"
  let ?m2 = "[(''characters'', 2), (''objects'', 3 :: nat)]"
  let ?st = "[[a_part ''c0000''], [a_part ''o1000''], [a_part ''c0001''], [a_part ''o1000'']]"
  have "snd (merge ?m1 ?m2 None False ?st) = Inl ValueError \<and>
        take (length ?st) (fst (merge ?m1 ?m2 None False ?st)) = ?st"
    by (rule merge_collision_rejected)
       (simp_all add: valid_msb_def msb_fields_def post_filter_def getattr_def filtered_def a_part_def)
  moreover have "fst (merge ?m1 ?m2 None False ?st) =
     [[a_part ''c0000''], [a_part ''o1000''], [a_part ''c0001''], [a_part ''o1000''],
     [a_part ''c0000'', a_part ''c0001''], [a_part ''c0001''],
     [a_part ''o1000''], [a_part ''o1000'']]"
    by (simp add: merge_def msb_fields_def getattr_def get_filtered_list_def filtered_def
          get_entry_names_def list_extend_def a_part_def)
  ultimately show ?thesis by (simp add: prod_eq_iff)
qed


lemma merge_loop_disjoint:
  assumes v1: "valid_msb st0 msb_1" and v2: "valid_msb st0 msb_2"
  shows "set ns \<subseteq> set (msb_fields msb_1) \<Longrightarrow> set ns \<subseteq> set (msb_fields msb_2) \<Longrightarrow> distinct ns \<Longrightarrow>
     \<forall>n \<in> set ns. set (map name (post_filter st0 msb_1 f n)) \<inter>
                     set (map name (post_filter st0 msb_2 f n)) = {} \<Longrightarrow>
     \<exists>ex' m. merge_loop ns msb_1 msb_2 f allow (st0 @ ex) merged = (st0 @ ex @ ex', Inr m) \<and>
        map fst m = map fst merged @ filter (\<lambda>k. k \<notin> fst ` set merged) ns \<and>
        (\<forall>k. k \<notin> set ns \<longrightarrow> map_of m k = map_of merged k) \<and>
        (\<forall>n \<in> set ns. \<exists>l. map_of m n = Some l \<and> length (st0 @ ex) \<le> l \<and>
            l < length (st0 @ ex @ ex') \<and>
            (st0 @ ex @ ex') ! l = post_filter st0 msb_1 f n @ post_filter st0 msb_2 f n)"
proof (induction ns arbitrary: ex merged)
  case Nil
  show ?case by simp
next
  case (Cons n ns)
  from Cons.prems(1) v1 obtain l1 where l1: "getattr msb_1 n = Some l1" "l1 < length st0"
    using getattr_valid [of st0 msb_1 n] by auto
  from Cons.prems(2) v2 obtain l2 where l2: "getattr msb_2 n = Some l2" "l2 < length st0"
    using getattr_valid [of st0 msb_2 n] by auto
  let ?A = "post_filter st0 msb_1 f n" and ?B = "post_filter st0 msb_2 f n"
  have A: "filtered f (st0 ! l1) = ?A" and B: "filtered f (st0 ! l2) = ?B"
    using l1 l2 by (simp_all add: post_filter_eq)
  let ?L = "length st0 + length ex"
  let ?ex1 = "ex @ [?A @ ?B, ?B]"
  let ?merged1 = "AList.update n ?L merged"
  have disj: "set (map name ?A) \<inter> set (map name ?B) = {}"
    using Cons.prems(4) by simp
  have step: "merge_loop (n # ns) msb_1 msb_2 f allow (st0 @ ex) merged =
                merge_loop ns msb_1 msb_2 f allow (st0 @ ?ex1) ?merged1"
    using merge_loop_step [OF l1(1) l2(1) l1(2) l2(2), of ns f allow ex merged] disj
    by (simp add: A B)
  have "\<exists>ex' m. merge_loop ns msb_1 msb_2 f allow (st0 @ ?ex1) ?merged1 = (st0 @ ?ex1 @ ex', Inr m) \<and>
          map fst m = map fst ?merged1 @ filter (\<lambda>k. k \<notin> fst ` set ?merged1) ns \<and>
          (\<forall>k. k \<notin> set ns \<longrightarrow> map_of m k = map_of ?merged1 k) \<and>
          (\<forall>k \<in> set ns. \<exists>l. map_of m k = Some l \<and> length (st0 @ ?ex1) \<le> l \<and>
              l < length (st0 @ ?ex1 @ ex') \<and>
              (st0 @ ?ex1 @ ex') ! l = post_filter st0 msb_1 f k @ post_filter st0 msb_2 f k)"
    using Cons.prems by (intro Cons.IH) auto
  then obtain ex2 m where
    res: "merge_loop ns msb_1 msb_2 f allow (st0 @ ?ex1) ?merged1 = (st0 @ ?ex1 @ ex2, Inr m)"
    and keys: "map fst m = map fst ?merged1 @ filter (\<lambda>k. k \<notin> fst ` set ?merged1) ns"
    and others: "\<forall>k. k \<notin> set ns \<longrightarrow> map_of m k = map_of ?merged1 k"
    and cells: "\<forall>k \<in> set ns. \<exists>l. map_of m k = Some l \<and> length (st0 @ ?ex1) \<le> l \<and>
              l < length (st0 @ ?ex1 @ ex2) \<and>
              (st0 @ ?ex1 @ ex2) ! l = post_filter st0 msb_1 f k @ post_filter st0 msb_2 f k"
    by blast
  let ?ex' = "[?A @ ?B, ?B] @ ex2"
  have store: "st0 @ ?ex1 @ ex2 = st0 @ ex @ ?ex'" by simp
  have n_notin: "n \<notin> set ns" using Cons.prems(3) by simp
  have 1: "merge_loop (n # ns) msb_1 msb_2 f allow (st0 @ ex) merged = (st0 @ ex @ ?ex', Inr m)"
    using step res by simp
  have 2: "map fst m = map fst merged @ filter (\<lambda>k. k \<notin> fst ` set merged) (n # ns)"
  proof (cases "n \<in> fst ` set merged")
    case True
    then have "fst ` set ?merged1 = fst ` set merged" by (auto simp: dom_update)
    with True keys show ?thesis by (simp add: update_keys)
  next
    case False
    have "filter (\<lambda>k. k \<notin> fst ` set ?merged1) ns = filter (\<lambda>k. k \<notin> fst ` set merged) ns"
      using n_notin by (intro filter_cong) (auto simp: dom_update)
    with False keys show ?thesis by (simp add: update_keys)
  qed
  have 3: "\<forall>k. k \<notin> set (n # ns) \<longrightarrow> map_of m k = map_of merged k"
    using others by (simp add: update_conv')
  have n_in_m: "map_of m n = Some ?L"
    using others n_notin by (simp add: update_conv')
  have 4: "\<forall>k \<in> set (n # ns). \<exists>l. map_of m k = Some l \<and> length (st0 @ ex) \<le> l \<and>
            l < length (st0 @ ex @ ?ex') \<and>
            (st0 @ ex @ ?ex') ! l = post_filter st0 msb_1 f k @ post_filter st0 msb_2 f k"
  proof
    fix k assume "k \<in> set (n # ns)"
    then consider "k = n" | "k \<in> set ns" by auto
    then show "\<exists>l. map_of m k = Some l \<and> length (st0 @ ex) \<le> l \<and>
            l < length (st0 @ ex @ ?ex') \<and>
            (st0 @ ex @ ?ex') ! l = post_filter st0 msb_1 f k @ post_filter st0 msb_2 f k"
    proof cases
      case 1
      have "(st0 @ ex @ ?ex') ! ?L = ?A @ ?B"
        by (simp add: nth_append)
      with n_in_m 1 show ?thesis by simp
    next
      case 2
      with cells obtain l where l: "map_of m k = Some l" "length (st0 @ ?ex1) \<le> l"
        "l < length (st0 @ ?ex1 @ ex2)"
        "(st0 @ ?ex1 @ ex2) ! l = post_filter st0 msb_1 f k @ post_filter st0 msb_2 f k"
        by blast
      from l(2) have "length (st0 @ ex) \<le> l" by simp
      moreover from l(3) have "l < length (st0 @ ex @ ?ex')" by simp
      moreover from l(4) have
        "(st0 @ ex @ ?ex') ! l = post_filter st0 msb_1 f k @ post_filter st0 msb_2 f k"
        by (simp only: store)
      ultimately show ?thesis using l(1) by blast
    qed
  qed
  from 1 2 3 4 show ?case by blast
qed

text \<open>
  Claim C7: for two collections with the same field names whose post-filter entry names
  are disjoint in every subtype, \<^verbatim>\<open>merge\<close> raises nothing, whatever
  \<^verbatim>\<open>allow_repeated_names\<close> is; the collection it returns has the same fields, each holding
  a new list object that is the first side's post-filter entries followed by the second
  side's, so its entry count is the sum of the two post-filter counts; the input lists
  are unchanged.
\<close>

theorem merge_disjoint_counts:
  assumes "valid_msb st msb_1" and "valid_msb st msb_2"
    and "msb_fields msb_1 = msb_fields msb_2"
    and "\<forall>n \<in> set (msb_fields msb_1). set (map name (post_filter st msb_1 f n)) \<inter>
                                     set (map name (post_filter st msb_2 f n)) = {}"
  shows "case merge msb_1 msb_2 f allow st of
           (st', Inl e) \<Rightarrow> False
         | (st', Inr m) \<Rightarrow>
             msb_fields m = msb_fields msb_1 \<and> take (length st) st' = st \<and>
             (\<forall>n \<in> set (msb_fields msb_1).
                case getattr m n of
                  None \<Rightarrow> False
                | Some l \<Rightarrow>
                    length st \<le> l \<and> l < length st' \<and>
                    st' ! l = post_filter st msb_1 f n @ post_filter st msb_2 f n \<and>
                    length (st' ! l) =
                      length (post_filter st msb_1 f n) + length (post_filter st msb_2 f n))"
proof -
  have d: "distinct (msb_fields msb_1)" using assms(1) by (simp add: valid_msb_def)
  have "\<exists>ex' m. merge_loop (msb_fields msb_1) msb_1 msb_2 f allow (st @ []) [] = (st @ [] @ ex', Inr m) \<and>
        map fst m = map fst [] @ filter (\<lambda>k. k \<notin> fst ` set []) (msb_fields msb_1) \<and>
        (\<forall>k. k \<notin> set (msb_fields msb_1) \<longrightarrow> map_of m k = map_of [] k) \<and>
        (\<forall>n \<in> set (msb_fields msb_1). \<exists>l. map_of m n = Some l \<and> length (st @ []) \<le> l \<and>
            l < length (st @ [] @ ex') \<and>
            (st @ [] @ ex') ! l = post_filter st msb_1 f n @ post_filter st msb_2 f n)"
    using merge_loop_disjoint [OF assms(1,2), of "msb_fields msb_1" f allow "[]" "[]"] assms(3,4) d
    by simp
  then obtain ex' m where
    res: "merge_loop (msb_fields msb_1) msb_1 msb_2 f allow st [] = (st @ ex', Inr m)"
    and keys: "map fst m = msb_fields msb_1"
    and cells: "\<forall>n \<in> set (msb_fields msb_1). \<exists>l. map_of m n = Some l \<and> length st \<le> l \<and>
            l < length (st @ ex') \<and>
            (st @ ex') ! l = post_filter st msb_1 f n @ post_filter st msb_2 f n"
    by auto
  have m: "merge msb_1 msb_2 f allow st = (st @ ex', Inr m)"
    using res assms(3) by (simp add: merge_def)
  have "\<forall>n \<in> set (msb_fields msb_1).
          case getattr m n of
            None \<Rightarrow> False
          | Some l \<Rightarrow>
              length st \<le> l \<and> l < length (st @ ex') \<and>
              (st @ ex') ! l = post_filter st msb_1 f n @ post_filter st msb_2 f n \<and>
              length ((st @ ex') ! l) =
                length (post_filter st msb_1 f n) + length (post_filter st msb_2 f n)"
  proof
    fix n assume "n \<in> set (msb_fields msb_1)"
    with cells obtain l where "map_of m n = Some l" "length st \<le> l" "l < length (st @ ex')"
      "(st @ ex') ! l = post_filter st msb_1 f n @ post_filter st msb_2 f n" by blast
    then show "case getattr m n of
            None \<Rightarrow> False
          | Some l \<Rightarrow>
              length st \<le> l \<and> l < length (st @ ex') \<and>
              (st @ ex') ! l = post_filter st msb_1 f n @ post_filter st msb_2 f n \<and>
              length ((st @ ex') ! l) =
                length (post_filter st msb_1 f n) + length (post_filter st msb_2 f n)"
      by (simp add: getattr_def)
  qed
  with m keys show ?thesis by (simp add: msb_fields_def)
qed

theorem merge_disjoint_counts_witness:
  "merge [(''characters'', 0), (''objects'', 1)] [(''characters'', 2), (''objects'', 3)] None False
     [[a_part ''c0000''], [a_part ''o1000''], [a_part ''c0001'', a_part ''c0002''], []] =
   ([[a_part ''c0000''], [a_part ''o1000''], [a_part ''c0001'', a_part ''c0002''], [],
     [a_part ''c0000'', a_part ''c0001'', a_part ''c0002''], [a_part ''c0001'', a_part ''c0002''],
     [a_part ''o1000''], []],
    Inr [(''characters'', 4), (''objects'', 6)])"
proof -
  let ?m1 = "[(''characters'', 0), (''objects'', 1 :: nat)]"
  let ?m2 = "[(''characters'', 2), (''objects'', 3 :: nat)]"
  let ?st = "[[a_part ''c0000''], [a_part ''o1000''], [a_part ''c0001'', a_part ''c0002''], []]"
  have "case merge ?m1 ?m2 None False ?st of
           (st', Inl e) \<Rightarrow> False
         | (st', Inr m) \<Rightarrow>
             msb_fields m = msb_fields ?m1 \<and> take (length ?st) st' = ?st \<and>
             (\<forall>n \<in> set (msb_fields ?m1).
                case getattr m n of
                  None \<Rightarrow> False
                | Some l \<Rightarrow>
                    length ?st \<le> l \<and> l < length st' \<and>
                    st' ! l = post_filter ?st ?m1 None n @ post_filter ?st ?m2 None n \<and>
                    length (st' ! l) =
                      length (post_filter ?st ?m1 None n) + length (post_filter ?st ?m2 None n))"
    by (rule merge_disjoint_counts)
       (auto simp add: valid_msb_def msb_fields_def post_filter_def getattr_def filtered_def a_part_def)
  moreover have "merge ?m1 ?m2 None False ?st =
   ([[a_part ''c0000''], [a_part ''o1000''], [a_part ''c0001'', a_part ''c0002''], [],
     [a_part ''c0000'', a_part ''c0001'', a_part ''c0002''], [a_part ''c0001'', a_part ''c0002''],
     [a_part ''o1000''], []],
    Inr [(''characters'', 4), (''objects'', 6)])"
    by (simp add: merge_def msb_fields_def getattr_def get_filtered_list_def filtered_def
          get_entry_names_def list_extend_def a_part_def)
  ultimately show ?thesis by simp
qed

section \<open>Properties of the transforms\<close>

subsection \<open>Rotation and the compound move\<close>

lemma rotate_entries_raises:
  "\<exists>r \<in> set rs. is_selected sel r \<Longrightarrow>
   rotate_entries ops rot pivot radians sel rs st = Inl NameError"
  by (induction rs arbitrary: st) (auto simp: rotate_part_or_region_def)

lemma rotate_entries_nothing_selected:
  "\<forall>r \<in> set rs. \<not> is_selected sel r \<Longrightarrow>
   rotate_entries ops rot pivot radians sel rs st = Inr st"
  by (induction rs arbitrary: st) auto

text \<open>
  The \<^verbatim>\<open>radians\<close> flag has no effect on what \<^verbatim>\<open>rotate_all_in_world\<close> returns.
\<close>

lemma rotate_entries_radians:
  "rotate_entries ops rot pivot radians sel rs st = rotate_entries ops rot pivot False sel rs st"
  by (induction rs arbitrary: st) (simp_all add: rotate_part_or_region_def)

lemma rotate_all_in_world_radians:
  "rotate_all_in_world st msb ops rot pivot_point radians selected_entries =
   rotate_all_in_world st msb ops rot pivot_point False selected_entries"
  by (simp add: rotate_all_in_world_def rotate_entries_radians [of ops _ _ radians]
        cong: sum.case_cong)

lemma resolve_entries_list_entries: "resolve_entries_list st msb (map ByEntry rs) = Inr rs"
  by (induction rs) (simp_all add: resolve_entry_def)

lemma rotate_all_in_world_raises:
  assumes "resolve_entries_list st msb selected_entries = Inr selected"
    and "\<exists>r \<in> set (get_parts msb @ get_regions msb). is_selected selected r"
  shows "rotate_all_in_world st msb ops rot pivot_point radians selected_entries = Inl NameError"
proof (cases "\<exists>r \<in> set (get_parts msb). is_selected selected r")
  case True
  then show ?thesis
    using assms(1) by (simp add: rotate_all_in_world_def rotate_entries_raises Let_def)
next
  case False
  with assms(2) have "\<exists>r \<in> set (get_regions msb). is_selected selected r" by auto
  moreover from False have "\<forall>r \<in> set (get_parts msb). \<not> is_selected selected r" by simp
  ultimately show ?thesis
    using assms(1)
    by (simp add: rotate_all_in_world_def rotate_entries_raises
          rotate_entries_nothing_selected Let_def)
qed

text \<open>
  Claim C10: \<^verbatim>\<open>rotate_all_in_world\<close> applies \<^verbatim>\<open>rotate_part_or_region\<close> (new orientation and
  new position by the rotation law) to every selected part and region, reading the
  given rotation in degrees unless \<^verbatim>\<open>radians=True\<close>.

  \<^verbatim>\<open>rotate_part_or_region\<close> raises \<^verbatim>\<open>NameError\<close> at its \<^verbatim>\<open>isinstance\<close> test, the classes it
  names being imported for type checking only.  The theorem: for every store,
  collection, rotation, pivot, \<^verbatim>\<open>radians\<close> flag and selection that resolves, if some part or
  region of the collection is selected then \<^verbatim>\<open>rotate_all_in_world\<close> raises \<^verbatim>\<open>NameError\<close>;
  no entry is rotated.  (Independently, \<^verbatim>\<open>rotate_all_in_world\<close> converts the rotation by
  \<^verbatim>\<open>resolve_rotation(rotation)\<close> without handing \<^verbatim>\<open>radians\<close> over, against its docstring.)
\<close>

theorem rotate_all_in_world_raises_NameError:
  assumes "resolve_entries_list st msb selected_entries = Inr selected"
    and "\<exists>r \<in> set (get_parts msb @ get_regions msb). is_selected selected r"
  shows "rotate_all_in_world st msb ops rot pivot_point radians selected_entries = Inl NameError"
  using assms by (rule rotate_all_in_world_raises)

theorem rotate_all_in_world_raises_NameError_witness:
  "rotate_all_in_world [entry_A] \<lparr>get_parts = [0], get_regions = []\<rparr> some_ops
     (AsEuler \<lparr>vec_x = 0, vec_y = 90, vec_z = 0\<rparr>) None False [] = Inl NameError"
  using rotate_all_in_world_raises_NameError
          [of "[entry_A]" "\<lparr>get_parts = [0], get_regions = []\<rparr>" "[]" "[]" some_ops
              "AsEuler \<lparr>vec_x = 0, vec_y = 90, vec_z = 0\<rparr>" None False]
  by (simp add: is_selected_def)

text \<open>
  Claim C4: \<^verbatim>\<open>move_map\<close> computes the world rotation and the world translation from the
  two reference frames and applies the rotation to the selected parts and regions by
  \<^verbatim>\<open>rotate_all_in_world\<close>, then the translation by \<^verbatim>\<open>translate_all\<close>.

  \<^verbatim>\<open>move_map\<close> calls \<^verbatim>\<open>rotate_all_in_world\<close> first, which raises \<^verbatim>\<open>NameError\<close> as soon as
  one part or region is selected.  The theorem: for every store, collection, frames and
  selection that resolves, and whatever the matrix operations are, if some part or
  region of the collection is selected then \<^verbatim>\<open>move_map\<close> raises \<^verbatim>\<open>NameError\<close>;
  \<^verbatim>\<open>translate_all\<close> is not reached and no entry is moved.
\<close>

theorem move_map_raises_NameError:
  assumes "resolve_entries_list st msb selected_entries = Inr selected"
    and "\<exists>r \<in> set (get_parts msb @ get_regions msb). is_selected selected r"
  shows "move_map st msb ops start_translate end_translate start_rotate end_rotate
           selected_entries = Inl NameError"
proof -
  have "rotate_all_in_world st msb ops (AsMatrix m) None False (map ByEntry selected) =
          Inl NameError" for m
    using resolve_entries_list_entries [of st msb selected] assms(2)
    by (rule rotate_all_in_world_raises)
  then show ?thesis
    using assms(1) by (simp add: move_map_def Let_def)
qed

theorem move_map_raises_NameError_witness:
  "move_map [entry_A] \<lparr>get_parts = [0], get_regions = []\<rparr> some_ops
     None (Some \<lparr>vec_x = 1, vec_y = 0, vec_z = 0\<rparr>) None None [] = Inl NameError"
  using move_map_raises_NameError
          [of "[entry_A]" "\<lparr>get_parts = [0], get_regions = []\<rparr>" "[]" "[]" some_ops
              None "Some \<lparr>vec_x = 1, vec_y = 0, vec_z = 0\<rparr>" None None]
  by (simp add: is_selected_def)

subsection \<open>Translation\<close>

lemma length_translate_parts: "length (translate_parts t sel ps st) = length st"
  by (induction ps arbitrary: st) simp_all

lemma length_translate_regions: "length (translate_regions t sel rs st) = length st"
  by (induction rs arbitrary: st) simp_all

lemma nth_translate_parts:
  "distinct ps \<Longrightarrow> a < length st \<Longrightarrow>
   translate_parts t sel ps st ! a =
     (if a \<in> set ps \<and> is_selected sel a then translate_part t (st ! a) else st ! a)"
proof (induction ps arbitrary: st)
  case Nil
  show ?case by simp
next
  case (Cons p ps)
  let ?st' = "if is_selected sel p then st[p := translate_part t (st ! p)] else st"
  have len: "a < length ?st'" using Cons.prems(2) by simp
  have d: "distinct ps" and p: "p \<notin> set ps" using Cons.prems(1) by simp_all
  have "translate_parts t sel (p # ps) st ! a = translate_parts t sel ps ?st' ! a"
    by simp
  also have "\<dots> = (if a \<in> set ps \<and> is_selected sel a then translate_part t (?st' ! a) else ?st' ! a)"
    using Cons.IH [OF d len] .
  also have "\<dots> = (if a \<in> set (p # ps) \<and> is_selected sel a then translate_part t (st ! a) else st ! a)"
    using p Cons.prems(2) by (cases "a = p") auto
  finally show ?case .
qed

lemma nth_translate_regions:
  "distinct rs \<Longrightarrow> a < length st \<Longrightarrow>
   translate_regions t sel rs st ! a =
     (if a \<in> set rs \<and> is_selected sel a then translate_region t (st ! a) else st ! a)"
proof (induction rs arbitrary: st)
  case Nil
  show ?case by simp
next
  case (Cons r rs)
  let ?st' = "if is_selected sel r then st[r := translate_region t (st ! r)] else st"
  have len: "a < length ?st'" using Cons.prems(2) by simp
  have d: "distinct rs" and r: "r \<notin> set rs" using Cons.prems(1) by simp_all
  have "translate_regions t sel (r # rs) st ! a = translate_regions t sel rs ?st' ! a"
    by simp
  also have "\<dots> = (if a \<in> set rs \<and> is_selected sel a then translate_region t (?st' ! a) else ?st' ! a)"
    using Cons.IH [OF d len] .
  also have "\<dots> = (if a \<in> set (r # rs) \<and> is_selected sel a then translate_region t (st ! a) else st ! a)"
    using r Cons.prems(2) by (cases "a = r") auto
  finally show ?case .
qed

text \<open>
  Claim C5: \<^verbatim>\<open>translate_all\<close> adds the vector to \<^verbatim>\<open>translate\<close> of every selected part and
  region, adds its \<open>y\<close> component to \<^verbatim>\<open>reflect_plane_height\<close> of every selected part that
  has the attribute, and changes nothing else: every other entry of the store, and
  every other attribute of a selected entry, is exactly what it was.  An entry is
  selected when the resolved selection is empty or contains it.  The parts and regions
  of the collection are distinct objects; the selection is one that resolves (a name
  that is missing or ambiguous raises before anything is changed).
\<close>

theorem translate_all_selected_only:
  assumes "distinct (get_parts msb @ get_regions msb)"
    and "resolve_entries_list st msb selected_entries = Inr selected"
  shows "case translate_all st msb t selected_entries of
           Inl e \<Rightarrow> False
         | Inr st' \<Rightarrow>
             length st' = length st \<and>
             (\<forall>a < length st.
                st' ! a =
                  (if a \<in> set (get_parts msb) \<and> is_selected selected a then
                     (st ! a)\<lparr>translate := vec_add (translate (st ! a)) t,
                              reflect_plane_height :=
                                map_option (\<lambda>h. h + vec_y t) (reflect_plane_height (st ! a))\<rparr>
                   else if a \<in> set (get_regions msb) \<and> is_selected selected a then
                     (st ! a)\<lparr>translate := vec_add (translate (st ! a)) t\<rparr>
                   else st ! a))"
proof -
  let ?st1 = "translate_parts t selected (get_parts msb) st"
  let ?st2 = "translate_regions t selected (get_regions msb) ?st1"
  have dp: "distinct (get_parts msb)" and dr: "distinct (get_regions msb)"
    and disj: "set (get_parts msb) \<inter> set (get_regions msb) = {}"
    using assms(1) by simp_all
  have res: "translate_all st msb t selected_entries = Inr ?st2"
    using assms(2) by (simp add: translate_all_def)
  have len: "length ?st2 = length st"
    by (simp add: length_translate_parts length_translate_regions)
  have tp: "translate_part t e =
              e\<lparr>translate := vec_add (translate e) t,
                reflect_plane_height := map_option (\<lambda>h. h + vec_y t) (reflect_plane_height e)\<rparr>" for e :: "'a entry"
    by (cases "reflect_plane_height e") (simp_all add: translate_part_def)
  have cells: "?st2 ! a =
                  (if a \<in> set (get_parts msb) \<and> is_selected selected a then
                     (st ! a)\<lparr>translate := vec_add (translate (st ! a)) t,
                              reflect_plane_height :=
                                map_option (\<lambda>h. h + vec_y t) (reflect_plane_height (st ! a))\<rparr>
                   else if a \<in> set (get_regions msb) \<and> is_selected selected a then
                     (st ! a)\<lparr>translate := vec_add (translate (st ! a)) t\<rparr>
                   else st ! a)" if a: "a < length st" for a
  proof -
    have a1: "a < length ?st1" using a by (simp add: length_translate_parts)
    have 1: "?st2 ! a = (if a \<in> set (get_regions msb) \<and> is_selected selected a
                         then translate_region t (?st1 ! a) else ?st1 ! a)"
      using nth_translate_regions [OF dr a1] .
    have 2: "?st1 ! a = (if a \<in> set (get_parts msb) \<and> is_selected selected a
                         then translate_part t (st ! a) else st ! a)"
      using nth_translate_parts [OF dp a] .
    show ?thesis
    proof (cases "a \<in> set (get_parts msb)")
      case True
      with disj have "a \<notin> set (get_regions msb)" by auto
      with 1 2 True show ?thesis by (simp add: tp)
    next
      case False
      with 1 2 show ?thesis by (simp add: translate_region_def)
    qed
  qed
  from res len cells show ?thesis by simp
qed

theorem translate_all_selected_only_witness:
  "translate_all [entry_A, a_part ''B'', a_part ''C'']
     \<lparr>get_parts = [0, 1], get_regions = [2]\<rparr> \<lparr>vec_x = 0, vec_y = 2, vec_z = 0\<rparr> [ByName ''A''] =
   Inr [entry_A\<lparr>translate := \<lparr>vec_x = 1, vec_y = 2, vec_z = 3\<rparr>, reflect_plane_height := Some 7\<rparr>,
        a_part ''B'', a_part ''C'']"
proof -
  let ?st = "[entry_A, a_part ''B'', a_part ''C'']"
  let ?msb = "\<lparr>get_parts = [0, 1], get_regions = [2]\<rparr>"
  let ?t = "\<lparr>vec_x = 0, vec_y = 2, vec_z = 0 :: int\<rparr>"
  have r: "resolve_entries_list ?st ?msb [ByName ''A''] = Inr [0]"
    by (simp add: resolve_entry_def entry_A_def a_part_def)
  have "case translate_all ?st ?msb ?t [ByName ''A''] of
           Inl e \<Rightarrow> False
         | Inr st' \<Rightarrow>
             length st' = length ?st \<and>
             (\<forall>a < length ?st.
                st' ! a =
                  (if a \<in> set (get_parts ?msb) \<and> is_selected [0] a then
                     (?st ! a)\<lparr>translate := vec_add (translate (?st ! a)) ?t,
                              reflect_plane_height :=
                                map_option (\<lambda>h. h + vec_y ?t) (reflect_plane_height (?st ! a))\<rparr>
                   else if a \<in> set (get_regions ?msb) \<and> is_selected [0] a then
                     (?st ! a)\<lparr>translate := vec_add (translate (?st ! a)) ?t\<rparr>
                   else ?st ! a))"
    by (rule translate_all_selected_only [OF _ r]) simp
  moreover have "translate_all ?st ?msb ?t [ByName ''A''] =
      Inr [entry_A\<lparr>translate := \<lparr>vec_x = 1, vec_y = 2, vec_z = 3\<rparr>, reflect_plane_height := Some 7\<rparr>,
        a_part ''B'', a_part ''C'']"
    by (simp only: translate_all_def r sum.case)
       (simp add: is_selected_def translate_part_def translate_region_def vec_add_def entry_A_def)
  ultimately show ?thesis by simp
qed

end
